theory Spec2Isabelle
  imports Main
begin

section \<open>LinkShortener: data model\<close>

text \<open>
  The program is a single Python module, \<^verbatim>\<open>LinkShortener.py\<close>: a code generator, a URL
  normaliser, a class \<^verbatim>\<open>LinkDatabase\<close> wrapping one SQLite table, and the request
  handlers of a Flask application. The handlers share one process-wide
  \<^verbatim>\<open>database_connection\<close>; here the table's contents are passed to every operation
  and returned updated.

  Python integers are \<open>int\<close>. Python strings are \<open>string\<close>, a \<open>char\<close> standing for
  the code point of its number; code points above 255 have no \<open>char\<close> and strings that
  contain one are outside the model.
\<close>

text \<open>The class \<^verbatim>\<open>Link\<close>: one row of the table \<^verbatim>\<open>links\<close>.\<close>

record Link =
  short_link :: string
  url :: string
  deletion_id :: string
  clicks :: int
  timestamp :: int

text \<open>
  An SQLite INTEGER is a signed 64-bit number. The module \<^verbatim>\<open>sqlite3\<close> refuses to bind a
  Python integer outside that range to a statement: \<^verbatim>\<open>execute\<close> raises
  \<^verbatim>\<open>OverflowError\<close> and the statement does not run.
\<close>

definition sqlite_integer :: "int \<Rightarrow> bool" where
  "sqlite_integer n = (- (2 ^ 63) \<le> n \<and> n < 2 ^ 63)"

text \<open>
  The table \<^verbatim>\<open>links\<close>, as the list of its rows in insertion order. The schema declares
  \<^verbatim>\<open>short_link text unique\<close> (the primary key) and \<^verbatim>\<open>deletion_id text unique\<close>, and
  the columns \<^verbatim>\<open>clicks\<close> and \<^verbatim>\<open>timestamp\<close> hold 64-bit integers; \<open>wf_db\<close> says that
  a list of rows satisfies this, as every table that the application has written does.
\<close>

type_synonym LinkDatabase = "Link list"

definition wf_db :: "LinkDatabase \<Rightarrow> bool" where
  "wf_db db =
     (distinct (map short_link db) \<and> distinct (map deletion_id db) \<and>
      list_all (\<lambda>r. sqlite_integer (clicks r) \<and> sqlite_integer (timestamp r)) db)"

text \<open>Exceptions that the database layer raises and no handler catches.\<close>

datatype error = IntegrityError | OverflowError

section \<open>Helper methods\<close>

subsection \<open>The randomness source\<close>

text \<open>
  \<^verbatim>\<open>random.randint(a, b)\<close> returns an integer \<open>N\<close> with \<open>a \<le> N \<le> b\<close>. The generator is
  a sequence \<open>rnd\<close> of raw outputs and a position in it that every call advances by one;
  the \<open>i\<close>-th call reduces the \<open>i\<close>-th raw output into the requested range.
\<close>

definition randint :: "(nat \<Rightarrow> nat) \<Rightarrow> int \<Rightarrow> int \<Rightarrow> nat \<Rightarrow> int" where
  "randint rnd a b i = a + int (rnd i) mod (b - a + 1)"

subsection \<open>generate_random_code\<close>

definition charset :: string where
  "charset = ''abcdefghjkmnopqrstuvwxyzABCDEFGHJKLMNPQRSTUVWXYZ23456789''"

text \<open>
  \<^verbatim>\<open>"".join([charset[random.randint(0, len(charset)-1)] for x in range(length)])\<close>:
  one draw per position, in order; \<^verbatim>\<open>range(length)\<close> is empty for a negative length.
  The result is the code and the position of the generator after the draws.
\<close>

definition generate_random_code :: "(nat \<Rightarrow> nat) \<Rightarrow> int \<Rightarrow> nat \<Rightarrow> string \<times> nat" where
  "generate_random_code rnd len i =
     (map (\<lambda>x. charset ! nat (randint rnd 0 (int (length charset) - 1) (i + x))) [0..<nat len],
      i + nat len)"

subsection \<open>format_url\<close>

text \<open>
  \<^verbatim>\<open>validators.url\<close> and \<^verbatim>\<open>validators.domain\<close> belong to the third-party package
  \<^verbatim>\<open>validators\<close>; each returns a true value or a false one. They are the parameters
  \<open>v_url\<close> and \<open>v_domain\<close>. The return value \<^verbatim>\<open>-1\<close> of the source is \<open>None\<close>.
\<close>

definition format_url :: "(string \<Rightarrow> bool) \<Rightarrow> (string \<Rightarrow> bool) \<Rightarrow> string \<Rightarrow> string option" where
  "format_url v_url v_domain u =
     (if v_url u then Some u
      else if v_domain u then
        (if v_url (''http://'' @ u) then Some (''http://'' @ u) else None)
      else None)"

section \<open>The class LinkDatabase\<close>

text \<open>
  \<^verbatim>\<open>select * from links where short_link = ?\<close> followed by \<^verbatim>\<open>fetchone()\<close>: the first
  row with that short link, or \<^verbatim>\<open>None\<close>. Text is compared byte by byte (SQLite's default
  collation is BINARY).
\<close>

definition get_link_from_short :: "LinkDatabase \<Rightarrow> string \<Rightarrow> Link option" where
  "get_link_from_short db s = find (\<lambda>r. short_link r = s) db"

text \<open>
  \<^verbatim>\<open>update links set url=?,deletion_id=?,clicks=?,timestamp=? where short_link = ?\<close>:
  the row with the link's short link (a table that satisfies the schema has at most one)
  takes the link's other four columns. Binding the parameters comes first and raises
  \<^verbatim>\<open>OverflowError\<close> when the clicks or the timestamp do not fit 64 bits. The statement
  raises \<^verbatim>\<open>sqlite3.IntegrityError\<close> when it would give that row the deletion id of
  another row. Either exception leaves the table as it was.
\<close>

definition update_link :: "LinkDatabase \<Rightarrow> Link \<Rightarrow> error + LinkDatabase" where
  "update_link db link =
     (if \<not> (sqlite_integer (clicks link) \<and> sqlite_integer (timestamp link))
      then Inl OverflowError
      else if list_ex (\<lambda>r. short_link r = short_link link) db \<and>
         list_ex (\<lambda>r. short_link r \<noteq> short_link link \<and> deletion_id r = deletion_id link) db
      then Inl IntegrityError
      else Inr (map (\<lambda>r. if short_link r = short_link link
                          then r\<lparr>url := url link, deletion_id := deletion_id link,
                                 clicks := clicks link, timestamp := timestamp link\<rparr>
                          else r) db))"

text \<open>\<^verbatim>\<open>delete from links where short_link = ?\<close>: no row, no change.\<close>

definition delete_link :: "LinkDatabase \<Rightarrow> Link \<Rightarrow> LinkDatabase" where
  "delete_link db link = filter (\<lambda>r. short_link r \<noteq> short_link link) db"

text \<open>
  \<^verbatim>\<open>insert into links (url, short_link, deletion_id, clicks, timestamp) VALUES (?,?,?,?,?)\<close>:
  binding the parameters raises \<^verbatim>\<open>OverflowError\<close> when the clicks or the timestamp do
  not fit 64 bits; otherwise the row is appended unless its short link or its deletion id
  is already in the table, which raises \<^verbatim>\<open>sqlite3.IntegrityError\<close>.
\<close>

definition add_link :: "LinkDatabase \<Rightarrow> Link \<Rightarrow> error + LinkDatabase" where
  "add_link db link =
     (if \<not> (sqlite_integer (clicks link) \<and> sqlite_integer (timestamp link))
      then Inl OverflowError
      else if list_ex (\<lambda>r. short_link r = short_link link) db \<or>
         list_ex (\<lambda>r. deletion_id r = deletion_id link) db
      then Inl IntegrityError
      else Inr (db @ [\<lparr>short_link = short_link link, url = url link,
                       deletion_id = deletion_id link, clicks = clicks link,
                       timestamp = timestamp link\<rparr>]))"

text \<open>\<^verbatim>\<open>select count(short_link) from links where short_link=?\<close>, compared with 0.\<close>

definition is_shortcode_in_db :: "LinkDatabase \<Rightarrow> string \<Rightarrow> bool" where
  "is_shortcode_in_db db shortCode = (length (filter (\<lambda>r. short_link r = shortCode) db) > 0)"

text \<open>
  \<^verbatim>\<open>while True: candidate = generate_random_code(length); if not
  self.is_shortcode_in_db(candidate): return candidate\<close>. The loop has no bound; a run
  that never finds a free code is the value \<open>None\<close>.
\<close>

partial_function (option) get_valid_short_link ::
  "(nat \<Rightarrow> nat) \<Rightarrow> LinkDatabase \<Rightarrow> int \<Rightarrow> nat \<Rightarrow> (string \<times> nat) option" where
  "get_valid_short_link rnd db len i =
     (let (candidate, i') = generate_random_code rnd len i
      in if \<not> is_shortcode_in_db db candidate then Some (candidate, i')
         else get_valid_short_link rnd db len i')"

text \<open>The equation of the loop is also the one it is evaluated with.\<close>

declare get_valid_short_link.simps [code]

section \<open>The request handlers\<close>

text \<open>
  What a handler returns: the template it renders with the arguments that vary, a redirect,
  or a plain string. The comment of each constructor names the handler and the message.
\<close>

datatype response =
    MainPage  \<comment> \<open>\<^verbatim>\<open>main_page\<close>: the submission form\<close>
  | InvalidUrl string  \<comment> \<open>\<^verbatim>\<open>handle_new_url\<close>: "The specified URL (...) is invalid."\<close>
  | NewUrlPage string string  \<comment> \<open>\<^verbatim>\<open>handle_new_url\<close>: the short code and the deletion code\<close>
  | NoResponse  \<comment> \<open>\<^verbatim>\<open>handle_redirect_url\<close> with no argument: the function returns nothing\<close>
  | ShortCodeNotFound  \<comment> \<open>\<^verbatim>\<open>handle_redirect_url\<close>: "The specified short code does not exist."\<close>
  | Redirect string  \<comment> \<open>\<^verbatim>\<open>handle_redirect_url\<close>: \<^verbatim>\<open>redirect(link_object.url)\<close>\<close>
  | ShortUrlNotFound  \<comment> \<open>deletion form and statistics: "The specified short URL does not exist"\<close>
  | DeletionForm string  \<comment> \<open>\<^verbatim>\<open>deletion_page_request\<close>: the form for a short code\<close>
  | StatisticsPage int int  \<comment> \<open>\<^verbatim>\<open>get_statistics_page\<close>: time created, clicks\<close>
  | DeletionNotFound  \<comment> \<open>\<^verbatim>\<open>handle_deletion_request\<close>: "the shortcode could not be found."\<close>
  | LinkDeleted  \<comment> \<open>\<^verbatim>\<open>handle_deletion_request\<close>: "The link has been deleted."\<close>
  | DeletionCodeInvalid  \<comment> \<open>\<^verbatim>\<open>handle_deletion_request\<close>: "the deletion code you entered was not valid."\<close>

text \<open>
  \<^verbatim>\<open>str.strip()\<close> removes the white space at both ends. The code points below 256 that
  Python counts as white space (\<^verbatim>\<open>str.isspace\<close>) are 9 to 13, 28 to 31, 32, 133 (U+0085,
  next line) and 160 (U+00A0, no-break space). The white space above 255, such as U+2003,
  has no \<open>char\<close>.
\<close>

definition isspace :: "char \<Rightarrow> bool" where
  "isspace c =
     (of_char c \<in> set ([9, 10, 11, 12, 13, 28, 29, 30, 31, 32, 133, 160] :: nat list))"

definition strip :: "string \<Rightarrow> string" where
  "strip s = rev (dropWhile isspace (rev (dropWhile isspace s)))"

text \<open>
  \<^verbatim>\<open>handle_new_url\<close> (POST /). \<open>field\<close> is the form field \<^verbatim>\<open>url_submit_field\<close>, \<open>now\<close>
  is \<^verbatim>\<open>int(time.time())\<close>, \<open>i\<close> the position of the generator. The result is \<open>None\<close>
  when the search for a short code never ends; an uncaught exception leaves the table as
  it was.
\<close>

definition handle_new_url ::
  "(string \<Rightarrow> bool) \<Rightarrow> (string \<Rightarrow> bool) \<Rightarrow> (nat \<Rightarrow> nat) \<Rightarrow> int \<Rightarrow> string \<Rightarrow> nat \<Rightarrow> LinkDatabase
     \<Rightarrow> ((error + response) \<times> nat \<times> LinkDatabase) option" where
  "handle_new_url v_url v_domain rnd now field i db =
     (let submitted_url = strip field in
      case format_url v_url v_domain submitted_url of
        None \<Rightarrow> Some (Inr (InvalidUrl submitted_url), i, db)
      | Some formatted_url \<Rightarrow>
          (case get_valid_short_link rnd db 3 i of
             None \<Rightarrow> None
           | Some (short_code, i1) \<Rightarrow>
               (let (deletion_code, i2) = generate_random_code rnd 6 i1;
                    new_link = \<lparr>short_link = short_code, url = formatted_url,
                                deletion_id = deletion_code, clicks = 0, timestamp = now\<rparr>
                in case add_link db new_link of
                     Inl e \<Rightarrow> Some (Inl e, i2, db)
                   | Inr db' \<Rightarrow> Some (Inr (NewUrlPage short_code deletion_code), i2, db'))))"

text \<open>
  \<^verbatim>\<open>handle_redirect_url\<close> (GET /<argument>); the argument defaults to \<^verbatim>\<open>None\<close>.
  The found link is printed to the standard output, which is not part of the state here.
\<close>

definition handle_redirect_url ::
  "LinkDatabase \<Rightarrow> string option \<Rightarrow> (error + response) \<times> LinkDatabase" where
  "handle_redirect_url db argument =
     (case argument of
        None \<Rightarrow> (Inr NoResponse, db)
      | Some a \<Rightarrow>
          (case get_link_from_short db a of
             None \<Rightarrow> (Inr ShortCodeNotFound, db)
           | Some link_object \<Rightarrow>
               (let link_object' = link_object\<lparr>clicks := clicks link_object + 1\<rparr>
                in case update_link db link_object' of
                     Inl e \<Rightarrow> (Inl e, db)
                   | Inr db' \<Rightarrow> (Inr (Redirect (url link_object')), db'))))"

text \<open>\<^verbatim>\<open>deletion_page_request\<close> (GET /<shortcode>/delete).\<close>

definition deletion_page_request :: "LinkDatabase \<Rightarrow> string \<Rightarrow> response" where
  "deletion_page_request db shortcode =
     (if \<not> is_shortcode_in_db db shortcode then ShortUrlNotFound else DeletionForm shortcode)"

text \<open>\<^verbatim>\<open>get_statistics_page\<close> (GET /<shortcode>/stats).\<close>

definition get_statistics_page :: "LinkDatabase \<Rightarrow> string \<Rightarrow> response" where
  "get_statistics_page db shortcode =
     (case get_link_from_short db shortcode of
        None \<Rightarrow> ShortUrlNotFound
      | Some link_object \<Rightarrow> StatisticsPage (timestamp link_object) (clicks link_object))"

text \<open>
  \<^verbatim>\<open>handle_deletion_request\<close> (POST /<shortcode>/delete); \<open>deletion_code\<close> is the form
  field \<^verbatim>\<open>deletion_code_field\<close>, compared with \<^verbatim>\<open>==\<close>.
\<close>

definition handle_deletion_request ::
  "LinkDatabase \<Rightarrow> string \<Rightarrow> string \<Rightarrow> response \<times> LinkDatabase" where
  "handle_deletion_request db shortcode deletion_code =
     (case get_link_from_short db shortcode of
        None \<Rightarrow> (DeletionNotFound, db)
      | Some link_object \<Rightarrow>
          (if deletion_code = deletion_id link_object
           then (LinkDeleted, delete_link db link_object)
           else (DeletionCodeInvalid, db)))"

text \<open>\<^verbatim>\<open>main_page\<close> (GET /).\<close>

definition main_page :: response where
  "main_page = MainPage"

section \<open>The application as a sequence of requests\<close>

text \<open>
  The routes of the application, with the values a request carries: the form field and
  the time of a submission, the path argument of the others, the form field of a deletion.
\<close>

datatype request =
    GetMain
  | PostNewUrl string int
  | GetRedirect "string option"
  | GetDeletionPage string
  | GetStatistics string
  | PostDeletion string string

text \<open>
  One request against the state of the process, the position of the generator and the
  table: the route's handler runs, and the state is what it leaves.
\<close>

definition handle_request ::
  "(string \<Rightarrow> bool) \<Rightarrow> (string \<Rightarrow> bool) \<Rightarrow> (nat \<Rightarrow> nat) \<Rightarrow> request \<Rightarrow> nat \<times> LinkDatabase
     \<Rightarrow> ((error + response) \<times> nat \<times> LinkDatabase) option" where
  "handle_request v_url v_domain rnd req s =
     (case s of (i, db) \<Rightarrow>
        (case req of
           GetMain \<Rightarrow> Some (Inr main_page, i, db)
         | PostNewUrl field now \<Rightarrow> handle_new_url v_url v_domain rnd now field i db
         | GetRedirect argument \<Rightarrow>
             (case handle_redirect_url db argument of (r, db') \<Rightarrow> Some (r, i, db'))
         | GetDeletionPage shortcode \<Rightarrow> Some (Inr (deletion_page_request db shortcode), i, db)
         | GetStatistics shortcode \<Rightarrow> Some (Inr (get_statistics_page db shortcode), i, db)
         | PostDeletion shortcode deletion_code \<Rightarrow>
             (case handle_deletion_request db shortcode deletion_code of
                (r, db') \<Rightarrow> Some (Inr r, i, db'))))"

text \<open>Requests served one after the other; a request that never returns stops the run.\<close>

fun serve ::
  "(string \<Rightarrow> bool) \<Rightarrow> (string \<Rightarrow> bool) \<Rightarrow> (nat \<Rightarrow> nat) \<Rightarrow> request list \<Rightarrow> nat \<times> LinkDatabase
     \<Rightarrow> (nat \<times> LinkDatabase) option" where
  "serve v_url v_domain rnd [] s = Some s"
| "serve v_url v_domain rnd (req # reqs) s =
     (case handle_request v_url v_domain rnd req s of
        None \<Rightarrow> None
      | Some (r, s') \<Rightarrow> serve v_url v_domain rnd reqs s')"

section \<open>Sample inputs\<close>

text \<open>
  Concrete inputs on which the theorems below are evaluated: a sequence of raw random
  outputs, two stand-ins for the validators of the package \<^verbatim>\<open>validators\<close> (a URL
  starts with \<^verbatim>\<open>http://\<close> and has no underscore; a domain has a dot and neither a slash
  nor a colon), a link and a table of two links, the first of them that one.
\<close>

definition sample_rnd :: "nat \<Rightarrow> nat" where
  "sample_rnd i = 7 * i + 3"

definition sample_url :: "string \<Rightarrow> bool" where
  "sample_url s = (take 7 s = ''http://'' \<and> 7 < length s \<and> CHR ''_'' \<notin> set s)"

definition sample_domain :: "string \<Rightarrow> bool" where
  "sample_domain s = (CHR ''.'' \<in> set s \<and> CHR ''/'' \<notin> set s \<and> CHR '':'' \<notin> set s)"

definition sample_link :: Link where
  "sample_link =
     \<lparr>short_link = ''dmt'', url = ''http://example.com'', deletion_id = ''abcDEF'',
      clicks = 4, timestamp = 1500000000\<rparr>"

definition sample_db :: LinkDatabase where
  "sample_db =
     [sample_link,
      \<lparr>short_link = ''xyz'', url = ''https://isabelle.in.tum.de/'', deletion_id = ''mnpQRS'',
       clicks = 0, timestamp = 1500000100\<rparr>]"

text \<open>
  A form field, \<^verbatim>\<open>example.com\<close> between two no-break spaces, the table after its
  submission to the sample table, a list of requests that follow it, and the table after
  them.
\<close>

definition sample_field :: string where
  "sample_field = CHR 0xA0 # ''example.com'' @ [CHR 0xA0]"

definition sample_created :: LinkDatabase where
  "sample_created =
     sample_db @
     [\<lparr>short_link = ''AHQ'', url = ''http://example.com'', deletion_id = ''X6dmtA'',
       clicks = 0, timestamp = 1600000000\<rparr>]"

definition sample_requests :: "request list" where
  "sample_requests =
     [GetStatistics ''AHQ'', PostDeletion ''AHQ'' ''x6dmta'', GetRedirect (Some ''dmt''),
      PostNewUrl ''isabelle.in.tum.de'' 1600000050, PostDeletion ''xyz'' ''mnpQRS'',
      GetDeletionPage ''AHQ'']"

definition sample_served :: LinkDatabase where
  "sample_served =
     [sample_link\<lparr>clicks := 5\<rparr>,
      \<lparr>short_link = ''AHQ'', url = ''http://example.com'', deletion_id = ''X6dmtA'',
       clicks = 0, timestamp = 1600000000\<rparr>,
      \<lparr>short_link = ''HQX'', url = ''http://isabelle.in.tum.de'', deletion_id = ''6dmtAH'',
       clicks = 0, timestamp = 1600000050\<rparr>]"

section \<open>The code generator\<close>

lemma charset_length: "length charset = 56"
  by (simp add: charset_def)

lemma randint_range: "a \<le> b \<Longrightarrow> a \<le> randint rnd a b i \<and> randint rnd a b i \<le> b"
  unfolding randint_def
  by (smt (verit) pos_mod_bound pos_mod_sign)

lemma randint_index: "nat (randint rnd 0 (int (length charset) - 1) x) < length charset"
proof -
  have "randint rnd 0 (int (length charset) - 1) x \<le> int (length charset) - 1"
    using randint_range[of 0 "int (length charset) - 1" rnd x] by (simp add: charset_length)
  then show ?thesis by (simp add: charset_length)
qed

lemma generate_random_code_chars: "set (fst (generate_random_code rnd n i)) \<subseteq> set charset"
  using randint_index by (auto simp: generate_random_code_def)

lemma snd_generate_random_code: "snd (generate_random_code rnd n i) = i + nat n"
  by (simp add: generate_random_code_def)

lemma charset_letters_digits:
  "set charset =
     set ''abcdefghijklmnopqrstuvwxyzABCDEFGHIJKLMNOPQRSTUVWXYZ0123456789'' - set ''ilIO01''"
  unfolding charset_def by auto

text \<open>
  Claim C8. A code of length \<open>n\<close> has \<open>n\<close> characters (\<open>nat n\<close> is \<open>n\<close> for every
  \<open>n \<ge> 0\<close>; a negative \<open>n\<close> gives the empty code). Every character comes from the
  character set, which has 56 different characters: the letters and digits without
  \<open>i\<close>, \<open>l\<close>, \<open>I\<close>, \<open>O\<close>, \<open>0\<close> and \<open>1\<close>. So no code contains \<open>0\<close>, \<open>O\<close>, \<open>1\<close>, \<open>l\<close> or \<open>I\<close>.
\<close>

theorem generate_random_code_safe_alphabet:
  "length (fst (generate_random_code rnd n i)) = nat n \<and>
   set (fst (generate_random_code rnd n i)) \<subseteq> set charset \<and>
   length charset = 56 \<and> distinct charset \<and>
   set charset =
     set ''abcdefghijklmnopqrstuvwxyzABCDEFGHIJKLMNOPQRSTUVWXYZ0123456789'' - set ''ilIO01'' \<and>
   set (fst (generate_random_code rnd n i)) \<inter> set ''0O1lI'' = {}"
proof -
  have len: "length (fst (generate_random_code rnd n i)) = nat n"
    by (simp add: generate_random_code_def)
  have dist: "distinct charset"
    by (simp add: charset_def)
  have "set charset \<inter> set ''0O1lI'' = {}"
    by (simp add: charset_def)
  with generate_random_code_chars[of rnd n i]
  have excl: "set (fst (generate_random_code rnd n i)) \<inter> set ''0O1lI'' = {}"
    by blast
  show ?thesis
    using len generate_random_code_chars charset_length dist charset_letters_digits excl
    by blast
qed

theorem generate_random_code_safe_alphabet_witness:
  "generate_random_code sample_rnd 6 0 = (''dmtAHQ'', 6) \<and>
   length (fst (generate_random_code sample_rnd 6 0)) = 6 \<and>
   set (fst (generate_random_code sample_rnd 6 0)) \<inter> set ''0O1lI'' = {}"
proof -
  have v: "generate_random_code sample_rnd 6 0 = (''dmtAHQ'', 6)"
    by (simp add: generate_random_code_def randint_def charset_def sample_rnd_def upt_rec)
  show ?thesis
    using generate_random_code_safe_alphabet[of sample_rnd 6 0] v by simp
qed

section \<open>Looking a short code up\<close>

lemma get_link_Some:
  "get_link_from_short db c = Some l \<Longrightarrow> l \<in> set db \<and> short_link l = c"
  by (auto simp: get_link_from_short_def find_Some_iff)

lemma get_link_None:
  "get_link_from_short db c = None \<longleftrightarrow> c \<notin> short_link ` set db"
  by (auto simp: get_link_from_short_def find_None_iff)

lemma in_db_iff: "is_shortcode_in_db db c \<longleftrightarrow> c \<in> short_link ` set db"
  by (induction db) (auto simp: is_shortcode_in_db_def)

section \<open>Allocating a short code\<close>

text \<open>Whatever the loop returns was a candidate that the existence check did not find.\<close>

lemma get_valid_short_link_sound:
  "get_valid_short_link rnd db len i = Some y \<Longrightarrow> \<not> is_shortcode_in_db db (fst y)"
proof (rule get_valid_short_link.raw_induct
        [where P = "\<lambda>rnd db len i y. \<not> is_shortcode_in_db db (fst y)"])
  show "get_valid_short_link rnd db len i = Some y"
    if "get_valid_short_link rnd db len i = Some y" using that .
next
  fix f rnd db len i y
  assume IH: "\<And>rnd db len i y. f rnd db len i = Some y \<Longrightarrow> \<not> is_shortcode_in_db db (fst y)"
    and body: "(let (candidate, i') = generate_random_code rnd len i
                in if \<not> is_shortcode_in_db db candidate then Some (candidate, i')
                   else f rnd db len i') = Some y"
  obtain c j where g: "generate_random_code rnd len i = (c, j)"
    by (cases "generate_random_code rnd len i")
  show "\<not> is_shortcode_in_db db (fst y)"
  proof (cases "is_shortcode_in_db db c")
    case True
    with body g have "f rnd db len j = Some y" by simp
    then show ?thesis by (rule IH)
  next
    case False
    with body g have "y = (c, j)" by simp
    with False show ?thesis by simp
  qed
qed

text \<open>
  The loop returns as soon as one candidate is free: if the \<open>k\<close>-th candidate from the
  current position of the generator is not in the table, the call has a result.
\<close>

lemma get_valid_short_link_returns:
  "\<not> is_shortcode_in_db db (fst (generate_random_code rnd len (i + k * nat len))) \<Longrightarrow>
   \<exists>y. get_valid_short_link rnd db len i = Some y"
proof (induction k arbitrary: i)
  case 0
  then show ?case
    by (subst get_valid_short_link.simps) (simp add: split_def Let_def)
next
  case (Suc k)
  from Suc.prems
  have "\<not> is_shortcode_in_db db (fst (generate_random_code rnd len ((i + nat len) + k * nat len)))"
    by (simp add: algebra_simps)
  from Suc.IH[OF this] obtain y where "get_valid_short_link rnd db len (i + nat len) = Some y" ..
  then show ?case
    by (subst get_valid_short_link.simps)
       (auto simp: split_def Let_def snd_generate_random_code)
qed

lemma sample_allocation: "get_valid_short_link sample_rnd sample_db 3 0 = Some (''AHQ'', 6)"
  by (simp add: get_valid_short_link.simps[of _ _ _ 0] get_valid_short_link.simps[of _ _ _ 3]
        generate_random_code_def randint_def charset_def sample_rnd_def sample_db_def
        sample_link_def is_shortcode_in_db_def upt_rec)

text \<open>
  Claim C1. When \<^verbatim>\<open>get_valid_short_link\<close> returns a code, the existence check
  \<^verbatim>\<open>is_shortcode_in_db\<close> is false for it on the table of the call: no row has it as its
  short link, and looking it up finds nothing.
\<close>

theorem get_valid_short_link_unused:
  "get_valid_short_link rnd db len i = Some (c, i') \<Longrightarrow>
     \<not> is_shortcode_in_db db c \<and> c \<notin> short_link ` set db \<and> get_link_from_short db c = None"
  using get_valid_short_link_sound[of rnd db len i "(c, i')"]
  by (simp add: in_db_iff get_link_None)

theorem get_valid_short_link_unused_witness:
  "get_valid_short_link sample_rnd sample_db 3 0 = Some (''AHQ'', 6) \<and>
   is_shortcode_in_db sample_db ''dmt'' \<and>
   \<not> is_shortcode_in_db sample_db ''AHQ'' \<and>
   get_link_from_short sample_db ''AHQ'' = None"
proof -
  have "is_shortcode_in_db sample_db ''dmt''"
    by (simp add: is_shortcode_in_db_def sample_db_def sample_link_def)
  then show ?thesis
    using get_valid_short_link_unused[OF sample_allocation] sample_allocation by simp
qed

section \<open>Normalising a URL\<close>

text \<open>
  Claim C5. A string that \<^verbatim>\<open>validators.url\<close> accepts is returned as it is.
\<close>

theorem format_url_valid_unchanged:
  "v_url u \<Longrightarrow> format_url v_url v_domain u = Some u"
  by (simp add: format_url_def)

theorem format_url_valid_unchanged_witness:
  "sample_url ''http://example.com/a?b=1'' \<and>
   format_url sample_url sample_domain ''http://example.com/a?b=1'' = Some ''http://example.com/a?b=1''"
proof -
  have h: "sample_url ''http://example.com/a?b=1''"
    by (simp add: sample_url_def)
  show ?thesis
    using h format_url_valid_unchanged[of sample_url "''http://example.com/a?b=1''" sample_domain]
    by simp
qed

text \<open>
  Claim C6, as the specification states it: a string that is not a URL and is a domain
  comes back with \<^verbatim>\<open>http://\<close> in front. The source checks once more, that the string
  with the scheme in front is a URL, and returns \<^verbatim>\<open>-1\<close> when it is not; with validators
  that accept \<^verbatim>\<open>a_b.com\<close> as a domain and refuse \<^verbatim>\<open>http://a_b.com\<close> as a URL the string
  is rejected.
\<close>

theorem format_url_domain_counterexample:
  "\<not> sample_url ''a_b.com'' \<and> sample_domain ''a_b.com'' \<and>
   format_url sample_url sample_domain ''a_b.com'' \<noteq> Some ''http://a_b.com'' \<and>
   format_url sample_url sample_domain ''a_b.com'' = None"
  by (simp add: format_url_def sample_url_def sample_domain_def)

text \<open>
  Claim C6, amended. A string that is not a URL and is a domain comes back with
  \<^verbatim>\<open>http://\<close> in front when the string with the scheme in front is a URL, and is
  rejected when it is not.
\<close>

theorem format_url_domain_prefixed:
  "\<not> v_url u \<Longrightarrow> v_domain u \<Longrightarrow>
     format_url v_url v_domain u =
       (if v_url (''http://'' @ u) then Some (''http://'' @ u) else None)"
  by (simp add: format_url_def)

theorem format_url_domain_prefixed_witness:
  "\<not> sample_url ''example.com'' \<and> sample_domain ''example.com'' \<and>
   sample_url ''http://example.com'' \<and>
   format_url sample_url sample_domain ''example.com'' = Some ''http://example.com''"
proof -
  have h1: "\<not> sample_url ''example.com''" by (simp add: sample_url_def)
  have h2: "sample_domain ''example.com''" by (simp add: sample_domain_def)
  have h3: "sample_url ''http://example.com''" by (simp add: sample_url_def)
  show ?thesis
    using h1 h2 h3 format_url_domain_prefixed[of sample_url "''example.com''" sample_domain]
    by simp
qed

text \<open>
  Claim C7. A string that is neither a URL nor a domain is rejected: \<^verbatim>\<open>format_url\<close>
  returns \<^verbatim>\<open>-1\<close>, and \<^verbatim>\<open>handle_new_url\<close>, which validates the stripped form field,
  answers with the error page that names it and leaves the table and the generator as
  they were.
\<close>

theorem format_url_rejects:
  "\<not> v_url u \<Longrightarrow> \<not> v_domain u \<Longrightarrow>
     format_url v_url v_domain u = None \<and>
     (strip field = u \<longrightarrow>
        handle_new_url v_url v_domain rnd now field i db = Some (Inr (InvalidUrl u), i, db))"
  by (simp add: format_url_def handle_new_url_def)

theorem format_url_rejects_witness:
  "\<not> sample_url ''not a url'' \<and> \<not> sample_domain ''not a url'' \<and>
   strip (CHR 0x85 # '' not a url  '' @ [CHR 0xA0]) = ''not a url'' \<and>
   format_url sample_url sample_domain ''not a url'' = None \<and>
   handle_new_url sample_url sample_domain sample_rnd 1600000000
       (CHR 0x85 # '' not a url  '' @ [CHR 0xA0]) 0 sample_db
     = Some (Inr (InvalidUrl ''not a url''), 0, sample_db)"
proof -
  have h1: "\<not> sample_url ''not a url''" by (simp add: sample_url_def)
  have h2: "\<not> sample_domain ''not a url''" by (simp add: sample_domain_def)
  have h3: "strip (CHR 0x85 # '' not a url  '' @ [CHR 0xA0]) = ''not a url''"
    by (simp add: strip_def isspace_def)
  show ?thesis
    using h1 h2 h3
      format_url_rejects[of sample_url "''not a url''" sample_domain
        "CHR 0x85 # '' not a url  '' @ [CHR 0xA0]" sample_rnd 1600000000 0 sample_db]
    by simp
qed

section \<open>The table's constraints\<close>

text \<open>
  In a table that satisfies the schema a short link, and a deletion id, names one row.
\<close>

lemma wf_db_unique_short:
  "wf_db db \<Longrightarrow> r \<in> set db \<Longrightarrow> l \<in> set db \<Longrightarrow> short_link r = short_link l \<Longrightarrow> r = l"
  by (auto simp: wf_db_def dest: inj_on_eq_iff[OF iffD1[OF distinct_map, THEN conjunct2]])

lemma wf_db_unique_deletion:
  "wf_db db \<Longrightarrow> r \<in> set db \<Longrightarrow> l \<in> set db \<Longrightarrow> deletion_id r = deletion_id l \<Longrightarrow> r = l"
  by (auto simp: wf_db_def dest: inj_on_eq_iff[OF iffD1[OF distinct_map, THEN conjunct2]])


text \<open>
  The empty table satisfies the constraints, and every operation of the class keeps them
  as the handlers use it.
\<close>

lemma wf_db_empty: "wf_db []"
  by (simp add: wf_db_def)

lemma wf_db_integers:
  "wf_db db \<Longrightarrow> r \<in> set db \<Longrightarrow> sqlite_integer (clicks r) \<and> sqlite_integer (timestamp r)"
  by (simp add: wf_db_def list_all_iff)

lemma wf_db_add_link:
  assumes "wf_db db" and "add_link db l = Inr db'"
  shows "wf_db db'"
proof -
  from assms(2) have fresh: "short_link l \<notin> short_link ` set db" "deletion_id l \<notin> deletion_id ` set db"
    and fits: "sqlite_integer (clicks l)" "sqlite_integer (timestamp l)"
    and db': "db' = db @ [\<lparr>short_link = short_link l, url = url l, deletion_id = deletion_id l,
                            clicks = clicks l, timestamp = timestamp l\<rparr>]"
    by (auto simp: add_link_def list_ex_iff split: if_splits)
  with assms(1) show ?thesis by (simp add: wf_db_def)
qed

lemma wf_db_delete_link: "wf_db db \<Longrightarrow> wf_db (delete_link db l)"
  by (simp add: wf_db_def delete_link_def distinct_map_filter list_all_iff)

lemma wf_db_click:
  assumes "wf_db db" and "\<forall>r\<in>set db. short_link r = c \<longrightarrow> clicks r < 2 ^ 63 - 1"
  shows "wf_db (map (\<lambda>r. if short_link r = c then r\<lparr>clicks := clicks r + 1\<rparr> else r) db)"
proof -
  have "sqlite_integer (clicks r + 1)" if "r \<in> set db" "short_link r = c" for r
    using wf_db_integers[OF assms(1) that(1)] assms(2) that
    by (auto simp: sqlite_integer_def)
  with assms(1)
  have "list_all (\<lambda>r. sqlite_integer (clicks r) \<and> sqlite_integer (timestamp r))
          (map (\<lambda>r. if short_link r = c then r\<lparr>clicks := clicks r + 1\<rparr> else r) db)"
    by (auto simp: wf_db_def list_all_iff)
  with assms(1) show ?thesis
    by (simp add: wf_db_def comp_def if_distrib[of short_link]
          if_distrib[of deletion_id] cong: if_cong)
qed

section \<open>Resolving a short code\<close>

text \<open>
  On a table that satisfies the constraints the update of a found link, with its clicks
  raised by one, succeeds when the new count still fits 64 bits, and is then the table
  with the clicks of that row raised by one. At the largest count, \<open>2 ^ 63 - 1\<close>, it
  raises \<^verbatim>\<open>OverflowError\<close>.
\<close>

lemma update_click:
  assumes wf: "wf_db db" and l: "get_link_from_short db c = Some l"
    and fits: "clicks l < 2 ^ 63 - 1"
  shows "update_link db (l\<lparr>clicks := clicks l + 1\<rparr>) =
           Inr (map (\<lambda>r. if short_link r = c then r\<lparr>clicks := clicks r + 1\<rparr> else r) db)"
proof -
  from l have lin: "l \<in> set db" and lc: "short_link l = c" by (auto dest: get_link_Some)
  have ints: "sqlite_integer (clicks l + 1) \<and> sqlite_integer (timestamp l)"
    using wf_db_integers[OF wf lin] fits by (auto simp: sqlite_integer_def)
  have no_clash: "\<not> list_ex (\<lambda>r. short_link r \<noteq> c \<and> deletion_id r = deletion_id l) db"
    using wf_db_unique_deletion[OF wf _ lin] lc by (auto simp: list_ex_iff)
  have same: "r\<lparr>url := url l, deletion_id := deletion_id l, clicks := clicks l + 1, timestamp := timestamp l\<rparr>
                = r\<lparr>clicks := clicks r + 1\<rparr>" if "r \<in> set db" "short_link r = c" for r
    using wf_db_unique_short[OF wf that(1) lin] that(2) lc by simp
  show ?thesis
    using no_clash same ints by (simp add: update_link_def lc cong: map_cong)
qed

lemma update_click_overflow:
  assumes "get_link_from_short db c = Some l" and "\<not> clicks l < 2 ^ 63 - 1"
  shows "update_link db (l\<lparr>clicks := clicks l + 1\<rparr>) = Inl OverflowError"
  using assms(2) by (simp add: update_link_def sqlite_integer_def)

lemma find_map_click:
  "find (\<lambda>r. short_link r = c') (map (\<lambda>r. if short_link r = c then r\<lparr>clicks := clicks r + 1\<rparr> else r) db)
     = map_option (\<lambda>r. if short_link r = c then r\<lparr>clicks := clicks r + 1\<rparr> else r) (find (\<lambda>r. short_link r = c') db)"
  by (induction db) auto

lemma find_map_click_other:
  "c' \<noteq> c \<Longrightarrow>
   find (\<lambda>r. short_link r = c') (map (\<lambda>r. if short_link r = c then r\<lparr>clicks := clicks r + 1\<rparr> else r) db)
     = find (\<lambda>r. short_link r = c') db"
  by (induction db) auto

lemma redirect_found:
  assumes wf: "wf_db db" and l: "get_link_from_short db c = Some l"
    and fits: "clicks l < 2 ^ 63 - 1"
  shows "handle_redirect_url db (Some c) =
           (Inr (Redirect (url l)), map (\<lambda>r. if short_link r = c then r\<lparr>clicks := clicks r + 1\<rparr> else r) db)"
  using update_click[OF wf l fits] l by (simp add: handle_redirect_url_def)

lemma redirect_overflow:
  assumes "get_link_from_short db c = Some l" and "\<not> clicks l < 2 ^ 63 - 1"
  shows "handle_redirect_url db (Some c) = (Inl OverflowError, db)"
  using update_click_overflow[OF assms] assms(1) by (simp add: handle_redirect_url_def)

text \<open>So a resolution that returns a response found a count that could be raised.\<close>

lemma redirect_response_fits:
  assumes "get_link_from_short db c = Some l"
    and "fst (handle_redirect_url db (Some c)) = Inr res"
  shows "clicks l < 2 ^ 63 - 1"
proof (rule ccontr)
  assume "\<not> clicks l < 2 ^ 63 - 1"
  from redirect_overflow[OF assms(1) this] assms(2) show False by simp
qed

lemma redirect_missing:
  "get_link_from_short db c = None \<Longrightarrow> handle_redirect_url db (Some c) = (Inr ShortCodeNotFound, db)"
  by (simp add: handle_redirect_url_def)

lemma wf_db_sample: "wf_db sample_db"
  by (simp add: wf_db_def sample_db_def sample_link_def sqlite_integer_def)

lemma sample_lookup: "get_link_from_short sample_db ''dmt'' = Some sample_link"
  by (simp add: get_link_from_short_def sample_db_def sample_link_def)

lemma sample_lookup_missing: "get_link_from_short sample_db ''abc'' = None"
  by (simp add: get_link_from_short_def sample_db_def sample_link_def)

text \<open>
  Claim C2. For a short code that the table has, in a table that satisfies the schema,
  every call of \<^verbatim>\<open>handle_redirect_url\<close> that returns a response redirects to the stored
  URL, and afterwards the table holds the same link with its clicks raised by exactly
  one (the statistics page shows the new count). The call does return a response whenever
  the stored count is below \<open>2 ^ 63 - 1\<close>, the largest that the column holds; at that
  count the update raises \<^verbatim>\<open>OverflowError\<close> and the table is the one it was. For a short
  code that the table does not have, the handler answers that the short code does not
  exist and the table is the one it was.
\<close>

theorem handle_redirect_url_counts:
  "(wf_db db \<and> get_link_from_short db c = Some l \<and>
      fst (handle_redirect_url db (Some c)) = Inr res \<longrightarrow>
      res = Redirect (url l) \<and>
      get_link_from_short (snd (handle_redirect_url db (Some c))) c
        = Some (l\<lparr>clicks := clicks l + 1\<rparr>) \<and>
      get_statistics_page (snd (handle_redirect_url db (Some c))) c
        = StatisticsPage (timestamp l) (clicks l + 1)) \<and>
   (wf_db db \<and> get_link_from_short db c = Some l \<and> clicks l < 2 ^ 63 - 1 \<longrightarrow>
      fst (handle_redirect_url db (Some c)) = Inr (Redirect (url l))) \<and>
   (get_link_from_short db c = Some l \<and> \<not> clicks l < 2 ^ 63 - 1 \<longrightarrow>
      handle_redirect_url db (Some c) = (Inl OverflowError, db)) \<and>
   (get_link_from_short db c = None \<longrightarrow>
      handle_redirect_url db (Some c) = (Inr ShortCodeNotFound, db))"
proof (intro conjI impI)
  assume a: "wf_db db \<and> get_link_from_short db c = Some l \<and>
      fst (handle_redirect_url db (Some c)) = Inr res"
  then have lc: "short_link l = c" by (auto dest: get_link_Some)
  from a have fits: "clicks l < 2 ^ 63 - 1" by (auto dest: redirect_response_fits)
  from a fits have r: "handle_redirect_url db (Some c) =
      (Inr (Redirect (url l)),
       map (\<lambda>r. if short_link r = c then r\<lparr>clicks := clicks r + 1\<rparr> else r) db)"
    by (simp add: redirect_found)
  from a show "res = Redirect (url l)"
    by (simp add: r)
  show g: "get_link_from_short (snd (handle_redirect_url db (Some c))) c
             = Some (l\<lparr>clicks := clicks l + 1\<rparr>)"
    using a lc by (simp add: r get_link_from_short_def find_map_click)
  show "get_statistics_page (snd (handle_redirect_url db (Some c))) c
          = StatisticsPage (timestamp l) (clicks l + 1)"
    by (simp add: get_statistics_page_def g)
next
  assume "wf_db db \<and> get_link_from_short db c = Some l \<and> clicks l < 2 ^ 63 - 1"
  then show "fst (handle_redirect_url db (Some c)) = Inr (Redirect (url l))"
    by (simp add: redirect_found)
next
  assume "get_link_from_short db c = Some l \<and> \<not> clicks l < 2 ^ 63 - 1"
  then show "handle_redirect_url db (Some c) = (Inl OverflowError, db)"
    by (simp add: redirect_overflow)
next
  assume "get_link_from_short db c = None"
  then show "handle_redirect_url db (Some c) = (Inr ShortCodeNotFound, db)"
    by (rule redirect_missing)
qed

theorem handle_redirect_url_counts_witness:
  "wf_db sample_db \<and> get_link_from_short sample_db ''dmt'' = Some sample_link \<and>
   clicks sample_link = 4 \<and>
   fst (handle_redirect_url sample_db (Some ''dmt'')) = Inr (Redirect ''http://example.com'') \<and>
   get_statistics_page (snd (handle_redirect_url sample_db (Some ''dmt''))) ''dmt''
     = StatisticsPage 1500000000 5 \<and>
   get_link_from_short sample_db ''abc'' = None \<and>
   handle_redirect_url sample_db (Some ''abc'') = (Inr ShortCodeNotFound, sample_db)"
proof -
  have f: "clicks sample_link = 4 \<and> url sample_link = ''http://example.com'' \<and>
           timestamp sample_link = 1500000000"
    by (simp add: sample_link_def)
  note found = handle_redirect_url_counts[of sample_db "''dmt''" sample_link
                 "Redirect ''http://example.com''"]
  note missing = handle_redirect_url_counts[of sample_db "''abc''" sample_link MainPage]
  have response: "fst (handle_redirect_url sample_db (Some ''dmt''))
                    = Inr (Redirect ''http://example.com'')"
    using found wf_db_sample sample_lookup f by simp
  have counted: "get_statistics_page (snd (handle_redirect_url sample_db (Some ''dmt''))) ''dmt''
                   = StatisticsPage 1500000000 5"
    using found wf_db_sample sample_lookup f response by simp
  have absent: "handle_redirect_url sample_db (Some ''abc'') = (Inr ShortCodeNotFound, sample_db)"
    using missing sample_lookup_missing by simp
  show ?thesis
    using response counted absent wf_db_sample sample_lookup sample_lookup_missing f by blast
qed

text \<open>
  Claim C9. A resolution that finds its link and returns a response, in a table that
  satisfies the schema, leaves the columns \<^verbatim>\<open>short_link\<close>, \<^verbatim>\<open>url\<close>, \<^verbatim>\<open>deletion_id\<close>
  and \<^verbatim>\<open>timestamp\<close> of every row as they were, although the update writes all four back;
  the clicks change in the row of the resolved code only, by one; and what any other
  short code resolves to is unchanged.
\<close>

theorem handle_redirect_url_frame:
  assumes "wf_db db" and "get_link_from_short db c = Some l"
    and "handle_redirect_url db (Some c) = (Inr res, db')"
  shows "res = Redirect (url l) \<and>
         map short_link db' = map short_link db \<and> map url db' = map url db \<and>
         map deletion_id db' = map deletion_id db \<and> map timestamp db' = map timestamp db \<and>
         map clicks db' = map (\<lambda>r. if short_link r = c then clicks r + 1 else clicks r) db \<and>
         get_link_from_short db' c = Some (l\<lparr>clicks := clicks l + 1\<rparr>) \<and>
         (\<forall>c'. c' \<noteq> c \<longrightarrow> get_link_from_short db' c' = get_link_from_short db c')"
proof -
  from assms(3) have "fst (handle_redirect_url db (Some c)) = Inr res" by simp
  from redirect_response_fits[OF assms(2) this] have fits: "clicks l < 2 ^ 63 - 1" .
  from redirect_found[OF assms(1,2) fits] assms(3)
  have res: "res = Redirect (url l)"
    and db': "db' = map (\<lambda>r. if short_link r = c then r\<lparr>clicks := clicks r + 1\<rparr> else r) db"
    by simp_all
  from assms(2) have lc: "short_link l = c" by (auto dest: get_link_Some)
  have "get_link_from_short db' c' = get_link_from_short db c'" if "c' \<noteq> c" for c'
    using that by (simp add: db' get_link_from_short_def find_map_click_other)
  moreover have "get_link_from_short db' c = Some (l\<lparr>clicks := clicks l + 1\<rparr>)"
    using assms(2) lc by (simp add: db' get_link_from_short_def find_map_click)
  ultimately show ?thesis by (simp add: res db' comp_def cong: if_cong)
qed

theorem handle_redirect_url_frame_witness:
  "wf_db sample_db \<and> get_link_from_short sample_db ''dmt'' = Some sample_link \<and>
   handle_redirect_url sample_db (Some ''dmt'')
     = (Inr (Redirect ''http://example.com''), sample_link\<lparr>clicks := 5\<rparr> # tl sample_db) \<and>
   map url (sample_link\<lparr>clicks := 5\<rparr> # tl sample_db) = map url sample_db \<and>
   map deletion_id (sample_link\<lparr>clicks := 5\<rparr> # tl sample_db) = map deletion_id sample_db \<and>
   map timestamp (sample_link\<lparr>clicks := 5\<rparr> # tl sample_db) = map timestamp sample_db \<and>
   map clicks sample_db = [4, 0] \<and>
   map clicks (sample_link\<lparr>clicks := 5\<rparr> # tl sample_db) = [5, 0] \<and>
   get_link_from_short (sample_link\<lparr>clicks := 5\<rparr> # tl sample_db) ''xyz''
     = get_link_from_short sample_db ''xyz''"
proof -
  have c: "map clicks sample_db = [4, 0] \<and> map short_link sample_db = [''dmt'', ''xyz'']"
    by (simp add: sample_db_def sample_link_def)
  have resolved: "handle_redirect_url sample_db (Some ''dmt'')
     = (Inr (Redirect ''http://example.com''), sample_link\<lparr>clicks := 5\<rparr> # tl sample_db)"
    by (simp add: handle_redirect_url_def get_link_from_short_def update_link_def
          sqlite_integer_def sample_db_def sample_link_def)
  show ?thesis
    using handle_redirect_url_frame[OF wf_db_sample sample_lookup resolved]
      wf_db_sample sample_lookup resolved c
    by (simp add: sample_db_def sample_link_def)
qed

section \<open>Deleting a link\<close>

lemma delete_link_lookup:
  "get_link_from_short (delete_link db l) c' =
     (if c' = short_link l then None else get_link_from_short db c')"
  by (induction db) (auto simp: delete_link_def get_link_from_short_def)

text \<open>
  Claim C3. For a stored link, the deletion request with the stored deletion id answers
  that the link has been deleted, and in the table it leaves the short code resolves to
  "does not exist". With any other submitted code the answer is that the code was not
  valid, the table is the one it was, the link is found unchanged, and the short code
  resolves as it did before the request: in a table that satisfies the schema, to a
  redirect to its URL, as long as its count can still be raised. For a short code that
  the table does not have, the answer is that the shortcode could not be found.
\<close>

theorem handle_deletion_request_outcomes:
  "(get_link_from_short db c = Some l \<longrightarrow>
      handle_deletion_request db c (deletion_id l) = (LinkDeleted, delete_link db l) \<and>
      handle_redirect_url (delete_link db l) (Some c) = (Inr ShortCodeNotFound, delete_link db l) \<and>
      (t \<noteq> deletion_id l \<longrightarrow>
         handle_deletion_request db c t = (DeletionCodeInvalid, db) \<and>
         get_link_from_short (snd (handle_deletion_request db c t)) c = Some l \<and>
         handle_redirect_url (snd (handle_deletion_request db c t)) (Some c)
           = handle_redirect_url db (Some c) \<and>
         (wf_db db \<and> clicks l < 2 ^ 63 - 1 \<longrightarrow>
            fst (handle_redirect_url (snd (handle_deletion_request db c t)) (Some c))
              = Inr (Redirect (url l))))) \<and>
   (get_link_from_short db c = None \<longrightarrow>
      handle_deletion_request db c t = (DeletionNotFound, db))"
proof (intro conjI impI)
  assume l: "get_link_from_short db c = Some l"
  then have lc: "short_link l = c" by (auto dest: get_link_Some)
  show "handle_deletion_request db c (deletion_id l) = (LinkDeleted, delete_link db l)"
    using l by (simp add: handle_deletion_request_def)
  have "get_link_from_short (delete_link db l) c = None"
    by (simp add: delete_link_lookup lc)
  then show "handle_redirect_url (delete_link db l) (Some c)
               = (Inr ShortCodeNotFound, delete_link db l)"
    by (rule redirect_missing)
  assume t: "t \<noteq> deletion_id l"
  show same: "handle_deletion_request db c t = (DeletionCodeInvalid, db)"
    using l t by (simp add: handle_deletion_request_def)
  show "get_link_from_short (snd (handle_deletion_request db c t)) c = Some l"
    using l by (simp add: same)
  show "handle_redirect_url (snd (handle_deletion_request db c t)) (Some c)
          = handle_redirect_url db (Some c)"
    by (simp add: same)
  assume "wf_db db \<and> clicks l < 2 ^ 63 - 1"
  then show "fst (handle_redirect_url (snd (handle_deletion_request db c t)) (Some c))
               = Inr (Redirect (url l))"
    using l by (simp add: same redirect_found)
next
  assume "get_link_from_short db c = None"
  then show "handle_deletion_request db c t = (DeletionNotFound, db)"
    by (simp add: handle_deletion_request_def)
qed

theorem handle_deletion_request_outcomes_witness:
  "get_link_from_short sample_db ''dmt'' = Some sample_link \<and> wf_db sample_db \<and>
   deletion_id sample_link = ''abcDEF'' \<and> clicks sample_link = 4 \<and>
   fst (handle_deletion_request sample_db ''dmt'' ''abcDEF'') = LinkDeleted \<and>
   fst (handle_redirect_url (snd (handle_deletion_request sample_db ''dmt'' ''abcDEF''))
          (Some ''dmt'')) = Inr ShortCodeNotFound \<and>
   handle_deletion_request sample_db ''dmt'' ''mnpQRS'' = (DeletionCodeInvalid, sample_db) \<and>
   fst (handle_redirect_url (snd (handle_deletion_request sample_db ''dmt'' ''mnpQRS''))
          (Some ''dmt'')) = Inr (Redirect ''http://example.com'') \<and>
   get_link_from_short sample_db ''abc'' = None \<and>
   handle_deletion_request sample_db ''abc'' ''abcDEF'' = (DeletionNotFound, sample_db)"
proof -
  have d: "deletion_id sample_link = ''abcDEF'' \<and> url sample_link = ''http://example.com'' \<and>
           clicks sample_link = 4"
    by (simp add: sample_link_def)
  note found = handle_deletion_request_outcomes[of sample_db "''dmt''" sample_link "''mnpQRS''"]
  note missing = handle_deletion_request_outcomes[of sample_db "''abc''" sample_link "''abcDEF''"]
  have deleted: "fst (handle_deletion_request sample_db ''dmt'' ''abcDEF'') = LinkDeleted \<and>
      fst (handle_redirect_url (snd (handle_deletion_request sample_db ''dmt'' ''abcDEF''))
             (Some ''dmt'')) = Inr ShortCodeNotFound"
    using found sample_lookup d by simp
  have refused: "handle_deletion_request sample_db ''dmt'' ''mnpQRS'' = (DeletionCodeInvalid, sample_db)"
    using found sample_lookup d by simp
  have "wf_db sample_db \<and> clicks sample_link < 2 ^ 63 - 1"
    using wf_db_sample d by simp
  then have resolvable:
    "fst (handle_redirect_url (snd (handle_deletion_request sample_db ''dmt'' ''mnpQRS''))
          (Some ''dmt'')) = Inr (Redirect ''http://example.com'')"
    using found sample_lookup d by auto
  have absent: "handle_deletion_request sample_db ''abc'' ''abcDEF'' = (DeletionNotFound, sample_db)"
    using missing sample_lookup_missing by simp
  show ?thesis
    using deleted refused resolvable absent sample_lookup sample_lookup_missing wf_db_sample d
    by blast
qed

text \<open>
  Claim C10. The submitted deletion code is compared with the stored deletion id by
  equality of strings: for a stored link, the request deletes it exactly when the two
  strings are equal, and any other string, one that differs in the case of a letter
  included, gets the answer that the code was not valid and leaves the table as it was.
\<close>

theorem deletion_code_exact:
  "get_link_from_short db c = Some l \<Longrightarrow>
     (fst (handle_deletion_request db c t) = LinkDeleted \<longleftrightarrow> t = deletion_id l) \<and>
     (get_link_from_short (snd (handle_deletion_request db c t)) c = None \<longleftrightarrow> t = deletion_id l) \<and>
     (t \<noteq> deletion_id l \<longrightarrow> handle_deletion_request db c t = (DeletionCodeInvalid, db))"
  by (auto simp: handle_deletion_request_def delete_link_lookup dest: get_link_Some)

theorem deletion_code_exact_witness:
  "get_link_from_short sample_db ''dmt'' = Some sample_link \<and>
   deletion_id sample_link = ''abcDEF'' \<and> ''abcdef'' \<noteq> ''abcDEF'' \<and>
   handle_deletion_request sample_db ''dmt'' ''abcdef'' = (DeletionCodeInvalid, sample_db) \<and>
   get_link_from_short (snd (handle_deletion_request sample_db ''dmt'' ''abcdef'')) ''dmt''
     = Some sample_link \<and>
   fst (handle_deletion_request sample_db ''dmt'' ''abcDEF'') = LinkDeleted \<and>
   get_link_from_short (snd (handle_deletion_request sample_db ''dmt'' ''abcDEF'')) ''dmt'' = None"
proof -
  have d: "deletion_id sample_link = ''abcDEF''"
    by (simp add: sample_link_def)
  show ?thesis
    using deletion_code_exact[OF sample_lookup, of "''abcdef''"]
      deletion_code_exact[OF sample_lookup, of "''abcDEF''"] sample_lookup d
    by simp
qed

section \<open>The constraints along a run\<close>

text \<open>
  Every handler leaves a table that satisfies the schema when it starts from one, so every
  table that a run of requests reaches from the empty table does.
\<close>

lemma wf_db_redirect: "wf_db db \<Longrightarrow> wf_db (snd (handle_redirect_url db a))"
proof (cases a)
  case None
  then show "wf_db db \<Longrightarrow> ?thesis" by (simp add: handle_redirect_url_def)
next
  case (Some c)
  assume wf: "wf_db db"
  show ?thesis
  proof (cases "get_link_from_short db c")
    case None
    with wf Some show ?thesis by (simp add: redirect_missing)
  next
    case found: (Some l)
    show ?thesis
    proof (cases "clicks l < 2 ^ 63 - 1")
      case True
      from found have "l \<in> set db" by (auto dest: get_link_Some)
      with wf True have "\<forall>r\<in>set db. short_link r = c \<longrightarrow> clicks r < 2 ^ 63 - 1"
        using found by (auto dest: wf_db_unique_short get_link_Some)
      with wf found True Some show ?thesis by (simp add: redirect_found wf_db_click)
    next
      case False
      with wf found Some show ?thesis by (simp add: redirect_overflow)
    qed
  qed
qed

lemma wf_db_deletion: "wf_db db \<Longrightarrow> wf_db (snd (handle_deletion_request db c t))"
  by (auto simp: handle_deletion_request_def wf_db_delete_link split: option.splits)

lemma wf_db_new_url:
  "wf_db db \<Longrightarrow> handle_new_url v_url v_domain rnd now field i db = Some (r, i', db') \<Longrightarrow> wf_db db'"
  by (auto simp: handle_new_url_def Let_def split: option.splits prod.splits sum.splits
           dest: wf_db_add_link)

lemma wf_db_handle_request:
  assumes "wf_db db" and "handle_request v_url v_domain rnd req (i, db) = Some (r, i', db')"
  shows "wf_db db'"
proof (cases req)
  case (PostNewUrl field now)
  with assms show ?thesis by (auto simp: handle_request_def dest: wf_db_new_url)
next
  case (GetRedirect a)
  with assms(2) have "db' = snd (handle_redirect_url db a)"
    by (auto simp: handle_request_def split: prod.splits)
  with assms(1) show ?thesis by (simp add: wf_db_redirect)
next
  case (PostDeletion c t)
  with assms(2) have "db' = snd (handle_deletion_request db c t)"
    by (auto simp: handle_request_def split: prod.splits)
  with assms(1) show ?thesis by (simp add: wf_db_deletion)
qed (use assms in \<open>auto simp: handle_request_def\<close>)

lemma wf_db_serve:
  "wf_db db \<Longrightarrow> serve v_url v_domain rnd reqs (i, db) = Some (i', db') \<Longrightarrow> wf_db db'"
proof (induction reqs arbitrary: i db)
  case Nil then show ?case by simp
next
  case (Cons req reqs)
  then show ?case
    by (auto split: option.splits dest: wf_db_handle_request)
qed

section \<open>From creation to the first resolution\<close>

lemma find_map_keep:
  assumes "\<And>r. short_link (f r) = short_link r" and "\<And>r. short_link r = c \<Longrightarrow> f r = r"
  shows "find (\<lambda>r. short_link r = c) (map f db) = find (\<lambda>r. short_link r = c) db"
  using assms by (induction db) auto

lemma find_append_found:
  "find P xs = Some x \<Longrightarrow> find P (xs @ ys) = Some x"
  by (induction xs) (auto split: if_splits)

lemma find_append_missing:
  "find P xs = None \<Longrightarrow> find P (xs @ ys) = find P ys"
  by (induction xs) (auto split: if_splits)

text \<open>
  Two facts about a table and a link \<open>L\<close> stored under the short code \<open>c\<close> are kept by
  every request that neither resolves \<open>c\<close> nor deletes \<open>c\<close> with the deletion id of \<open>L\<close>:
  looking \<open>c\<close> up finds \<open>L\<close>, and no row of another short code has the deletion id of
  \<open>L\<close>. The table need not satisfy the schema otherwise.
\<close>

lemma kept_add_link:
  assumes "get_link_from_short db c = Some L"
    and "\<forall>r\<in>set db. deletion_id r = deletion_id L \<longrightarrow> short_link r = c"
    and "add_link db n = Inr db'"
  shows "get_link_from_short db' c = Some L \<and>
         (\<forall>r\<in>set db'. deletion_id r = deletion_id L \<longrightarrow> short_link r = c)"
proof -
  from assms(1) have Lin: "L \<in> set db" by (auto dest: get_link_Some)
  from assms(3) have fresh: "deletion_id n \<notin> deletion_id ` set db"
    and db': "db' = db @ [\<lparr>short_link = short_link n, url = url n, deletion_id = deletion_id n,
                            clicks = clicks n, timestamp = timestamp n\<rparr>]"
    by (auto simp: add_link_def list_ex_iff split: if_splits)
  from fresh Lin have "deletion_id n \<noteq> deletion_id L" by auto
  with assms(1,2) show ?thesis
    by (auto simp: db' get_link_from_short_def find_append_found)
qed

lemma kept_update_other:
  assumes "get_link_from_short db c = Some L"
    and "\<forall>r\<in>set db. deletion_id r = deletion_id L \<longrightarrow> short_link r = c"
    and "short_link l \<noteq> c" and "deletion_id l \<noteq> deletion_id L"
    and "update_link db l = Inr db'"
  shows "get_link_from_short db' c = Some L \<and>
         (\<forall>r\<in>set db'. deletion_id r = deletion_id L \<longrightarrow> short_link r = c)"
proof -
  from assms(5) have db': "db' = map (\<lambda>r. if short_link r = short_link l
                          then r\<lparr>url := url l, deletion_id := deletion_id l,
                                 clicks := clicks l, timestamp := timestamp l\<rparr>
                          else r) db"
    by (auto simp: update_link_def split: if_splits)
  have "get_link_from_short db' c = get_link_from_short db c"
    unfolding db' get_link_from_short_def
    by (rule find_map_keep) (use assms(3) in auto)
  with assms(1,2,4) show ?thesis by (auto simp: db')
qed

lemma kept_redirect_other:
  assumes "get_link_from_short db c = Some L"
    and "\<forall>r\<in>set db. deletion_id r = deletion_id L \<longrightarrow> short_link r = c"
    and "a \<noteq> Some c"
  shows "get_link_from_short (snd (handle_redirect_url db a)) c = Some L \<and>
         (\<forall>r\<in>set (snd (handle_redirect_url db a)). deletion_id r = deletion_id L \<longrightarrow> short_link r = c)"
proof (cases a)
  case None
  with assms show ?thesis by (simp add: handle_redirect_url_def)
next
  case (Some c')
  with assms(3) have ne: "c' \<noteq> c" by simp
  show ?thesis
  proof (cases "get_link_from_short db c'")
    case None
    with assms Some show ?thesis by (simp add: handle_redirect_url_def)
  next
    case (Some l)
    then have l: "l \<in> set db" "short_link l = c'" by (auto dest: get_link_Some)
    with assms(2) ne have dl: "deletion_id l \<noteq> deletion_id L" by auto
    show ?thesis
    proof (cases "update_link db (l\<lparr>clicks := clicks l + 1\<rparr>)")
      case (Inl e)
      with assms Some \<open>a = Some c'\<close> show ?thesis by (simp add: handle_redirect_url_def)
    next
      case (Inr db')
      from kept_update_other[OF assms(1,2) _ _ Inr] l ne dl
      have "get_link_from_short db' c = Some L \<and>
         (\<forall>r\<in>set db'. deletion_id r = deletion_id L \<longrightarrow> short_link r = c)" by simp
      with Inr Some \<open>a = Some c'\<close> show ?thesis by (simp add: handle_redirect_url_def)
    qed
  qed
qed

lemma kept_deletion_other:
  assumes "get_link_from_short db c = Some L"
    and "\<forall>r\<in>set db. deletion_id r = deletion_id L \<longrightarrow> short_link r = c"
    and "\<not> (c' = c \<and> t = deletion_id L)"
  shows "get_link_from_short (snd (handle_deletion_request db c' t)) c = Some L \<and>
         (\<forall>r\<in>set (snd (handle_deletion_request db c' t)). deletion_id r = deletion_id L \<longrightarrow> short_link r = c)"
proof (cases "get_link_from_short db c'")
  case None
  with assms show ?thesis by (simp add: handle_deletion_request_def)
next
  case (Some l)
  then have l: "short_link l = c'" by (auto dest: get_link_Some)
  show ?thesis
  proof (cases "t = deletion_id l")
    case False
    with assms Some show ?thesis by (simp add: handle_deletion_request_def)
  next
    case True
    with assms(1,3) Some have "c' \<noteq> c" by auto
    with assms(1,2) Some True l show ?thesis
      by (auto simp: handle_deletion_request_def delete_link_lookup) (simp add: delete_link_def)
  qed
qed


lemma kept_new_url:
  assumes "get_link_from_short db c = Some L"
    and "\<forall>r\<in>set db. deletion_id r = deletion_id L \<longrightarrow> short_link r = c"
    and "handle_new_url v_url v_domain rnd now field i db = Some (r, i', db')"
  shows "get_link_from_short db' c = Some L \<and>
         (\<forall>r\<in>set db'. deletion_id r = deletion_id L \<longrightarrow> short_link r = c)"
proof (cases "format_url v_url v_domain (strip field)")
  case None
  with assms show ?thesis by (simp add: handle_new_url_def)
next
  case (Some u)
  with assms(3) obtain code j where a: "get_valid_short_link rnd db 3 i = Some (code, j)"
    by (auto simp: handle_new_url_def split: option.splits)
  obtain tok j' where g: "generate_random_code rnd 6 j = (tok, j')"
    by (cases "generate_random_code rnd 6 j")
  show ?thesis
  proof (cases "add_link db \<lparr>short_link = code, url = u, deletion_id = tok, clicks = 0, timestamp = now\<rparr>")
    case (Inl e)
    with assms Some a g show ?thesis by (simp add: handle_new_url_def)
  next
    case (Inr d)
    with assms(3) Some a g have "db' = d" by (simp add: handle_new_url_def)
    with kept_add_link[OF assms(1,2) Inr] show ?thesis by simp
  qed
qed

lemma kept_handle_request:
  assumes "get_link_from_short db c = Some L"
    and "\<forall>r\<in>set db. deletion_id r = deletion_id L \<longrightarrow> short_link r = c"
    and "req \<noteq> GetRedirect (Some c)" and "req \<noteq> PostDeletion c (deletion_id L)"
    and "handle_request v_url v_domain rnd req (i, db) = Some (r, i', db')"
  shows "get_link_from_short db' c = Some L \<and>
         (\<forall>r\<in>set db'. deletion_id r = deletion_id L \<longrightarrow> short_link r = c)"
proof (cases req)
  case (PostNewUrl field now)
  with assms(5) have "handle_new_url v_url v_domain rnd now field i db = Some (r, i', db')"
    by (simp add: handle_request_def)
  from kept_new_url[OF assms(1,2) this] show ?thesis .
next
  case (GetRedirect a)
  with assms(5) have "db' = snd (handle_redirect_url db a)"
    by (auto simp: handle_request_def split: prod.splits)
  moreover from GetRedirect assms(3) have "a \<noteq> Some c" by simp
  ultimately show ?thesis using kept_redirect_other[OF assms(1,2)] by simp
next
  case (PostDeletion c' t)
  with assms(5) have "db' = snd (handle_deletion_request db c' t)"
    by (auto simp: handle_request_def split: prod.splits)
  moreover from PostDeletion assms(4) have "\<not> (c' = c \<and> t = deletion_id L)" by simp
  ultimately show ?thesis using kept_deletion_other[OF assms(1,2)] by simp
qed (use assms in \<open>auto simp: handle_request_def\<close>)

lemma kept_serve:
  assumes "get_link_from_short db c = Some L"
    and "\<forall>r\<in>set db. deletion_id r = deletion_id L \<longrightarrow> short_link r = c"
    and "GetRedirect (Some c) \<notin> set reqs" and "PostDeletion c (deletion_id L) \<notin> set reqs"
    and "serve v_url v_domain rnd reqs (i, db) = Some (i', db')"
  shows "get_link_from_short db' c = Some L \<and>
         (\<forall>r\<in>set db'. deletion_id r = deletion_id L \<longrightarrow> short_link r = c)"
  using assms
proof (induction reqs arbitrary: i db)
  case Nil
  then show ?case by simp
next
  case (Cons req reqs)
  from Cons.prems(5) obtain r j d where
    h: "handle_request v_url v_domain rnd req (i, db) = Some (r, j, d)"
    and s: "serve v_url v_domain rnd reqs (j, d) = Some (i', db')"
    by (auto split: option.splits)
  from Cons.prems(3,4) have "req \<noteq> GetRedirect (Some c)" "req \<noteq> PostDeletion c (deletion_id L)"
    by auto
  from kept_handle_request[OF Cons.prems(1,2) this h]
  have "get_link_from_short d c = Some L"
    "\<forall>r\<in>set d. deletion_id r = deletion_id L \<longrightarrow> short_link r = c" by simp_all
  from Cons.IH[OF this _ _ s] Cons.prems(3,4) show ?case by simp
qed

text \<open>
  A submission that is answered with the page of the new link passed the validation,
  found its short code and its deletion code in no row, had a time that fits 64 bits, and
  appended the new row.
\<close>

lemma new_url_created:
  assumes "handle_new_url v_url v_domain rnd now field i db = Some (Inr (NewUrlPage code tok), i', db')"
  shows "\<exists>u. format_url v_url v_domain (strip field) = Some u \<and>
             code \<notin> short_link ` set db \<and> tok \<notin> deletion_id ` set db \<and>
             sqlite_integer now \<and>
             db' = db @ [\<lparr>short_link = code, url = u, deletion_id = tok, clicks = 0, timestamp = now\<rparr>]"
proof (cases "format_url v_url v_domain (strip field)")
  case None
  with assms show ?thesis by (simp add: handle_new_url_def)
next
  case (Some u)
  with assms obtain sc j where a: "get_valid_short_link rnd db 3 i = Some (sc, j)"
    by (auto simp: handle_new_url_def split: option.splits)
  obtain dc j' where g: "generate_random_code rnd 6 j = (dc, j')"
    by (cases "generate_random_code rnd 6 j")
  show ?thesis
  proof (cases "add_link db \<lparr>short_link = sc, url = u, deletion_id = dc, clicks = 0, timestamp = now\<rparr>")
    case (Inl e)
    with assms Some a g show ?thesis by (simp add: handle_new_url_def)
  next
    case (Inr d)
    with assms Some a g have eq: "sc = code" "dc = tok" "db' = d" by (simp_all add: handle_new_url_def)
    from Inr show ?thesis
      unfolding eq by (auto simp: Some add_link_def list_ex_iff split: if_splits)
  qed
qed

text \<open>
  Under the two facts the resolution of \<open>c\<close> succeeds when the raised count and the
  timestamp of \<open>L\<close> fit 64 bits: it redirects to the URL of \<open>L\<close> and stores \<open>L\<close> with one
  click more.
\<close>

lemma redirect_kept:
  assumes "get_link_from_short db c = Some L"
    and "\<forall>r\<in>set db. deletion_id r = deletion_id L \<longrightarrow> short_link r = c"
    and "sqlite_integer (clicks L + 1)" and "sqlite_integer (timestamp L)"
  shows "fst (handle_redirect_url db (Some c)) = Inr (Redirect (url L)) \<and>
         get_link_from_short (snd (handle_redirect_url db (Some c))) c = Some (L\<lparr>clicks := clicks L + 1\<rparr>)"
proof -
  from assms(1) have Lc: "short_link L = c" by (auto dest: get_link_Some)
  let ?f = "\<lambda>r. if short_link r = c
                          then r\<lparr>url := url L, deletion_id := deletion_id L,
                                 clicks := clicks L + 1, timestamp := timestamp L\<rparr>
                          else r"
  from assms(2) have "\<not> list_ex (\<lambda>r. short_link r \<noteq> c \<and> deletion_id r = deletion_id L) db"
    by (auto simp: list_ex_iff)
  with assms(3,4) have u: "update_link db (L\<lparr>clicks := clicks L + 1\<rparr>) = Inr (map ?f db)"
    by (simp add: update_link_def Lc)
  have "find (\<lambda>r. short_link r = c) (map ?f db) = map_option ?f (find (\<lambda>r. short_link r = c) db)"
    by (induction db) auto
  with assms(1) Lc have "get_link_from_short (map ?f db) c = Some (L\<lparr>clicks := clicks L + 1\<rparr>)"
    by (simp add: get_link_from_short_def)
  with u assms(1) show ?thesis by (simp add: handle_redirect_url_def)
qed

text \<open>
  Claim C4. When \<^verbatim>\<open>handle_new_url\<close> accepts a submission and answers with a short code
  and a deletion code, the stripped form field normalises to a URL \<open>u\<close>, and the table
  holds under the short code the link with that URL, the deletion code, 0 clicks and the
  time of the submission. The link stays so through every run of further requests that
  neither resolves the short code nor deletes it with its deletion code: the statistics
  show 0 clicks. The first resolution after the run redirects to exactly \<open>u\<close> and stores
  1 click.
\<close>

theorem create_then_resolve:
  assumes "handle_new_url v_url v_domain rnd now field i db = Some (Inr (NewUrlPage code tok), i', db')"
    and "GetRedirect (Some code) \<notin> set reqs" and "PostDeletion code tok \<notin> set reqs"
    and "serve v_url v_domain rnd reqs (i', db') = Some (i'', db'')"
  shows "\<exists>u. format_url v_url v_domain (strip field) = Some u \<and>
           get_link_from_short db' code =
             Some \<lparr>short_link = code, url = u, deletion_id = tok, clicks = 0, timestamp = now\<rparr> \<and>
           get_link_from_short db'' code =
             Some \<lparr>short_link = code, url = u, deletion_id = tok, clicks = 0, timestamp = now\<rparr> \<and>
           get_statistics_page db'' code = StatisticsPage now 0 \<and>
           fst (handle_redirect_url db'' (Some code)) = Inr (Redirect u) \<and>
           get_link_from_short (snd (handle_redirect_url db'' (Some code))) code =
             Some \<lparr>short_link = code, url = u, deletion_id = tok, clicks = 1, timestamp = now\<rparr>"
proof -
  from new_url_created[OF assms(1)] obtain u where
    u: "format_url v_url v_domain (strip field) = Some u"
    and fresh: "code \<notin> short_link ` set db" "tok \<notin> deletion_id ` set db"
    and fits: "sqlite_integer now"
    and db': "db' = db @ [\<lparr>short_link = code, url = u, deletion_id = tok, clicks = 0, timestamp = now\<rparr>]"
    by blast
  let ?L = "\<lparr>short_link = code, url = u, deletion_id = tok, clicks = 0, timestamp = now\<rparr>"
  from fresh(1) have "get_link_from_short db code = None" by (simp add: get_link_None)
  then have g': "get_link_from_short db' code = Some ?L"
    by (simp add: db' get_link_from_short_def find_append_missing)
  from fresh(2) have o': "\<forall>r\<in>set db'. deletion_id r = deletion_id ?L \<longrightarrow> short_link r = code"
    by (auto simp: db')
  from assms(3) have nd: "PostDeletion code (deletion_id ?L) \<notin> set reqs" by simp
  from kept_serve[OF g' o' assms(2) nd assms(4)]
  have g'': "get_link_from_short db'' code = Some ?L"
    and o'': "\<forall>r\<in>set db''. deletion_id r = deletion_id ?L \<longrightarrow> short_link r = code" by simp_all
  have one: "sqlite_integer (clicks ?L + 1)" by (simp add: sqlite_integer_def)
  from fits have time: "sqlite_integer (timestamp ?L)" by simp
  from redirect_kept[OF g'' o'' one time] have
    "fst (handle_redirect_url db'' (Some code)) = Inr (Redirect u) \<and>
     get_link_from_short (snd (handle_redirect_url db'' (Some code))) code =
             Some \<lparr>short_link = code, url = u, deletion_id = tok, clicks = 1, timestamp = now\<rparr>"
    by simp
  with u g' g'' show ?thesis by (simp add: get_statistics_page_def)
qed

theorem create_then_resolve_witness:
  "handle_new_url sample_url sample_domain sample_rnd 1600000000 sample_field 0 sample_db
     = Some (Inr (NewUrlPage ''AHQ'' ''X6dmtA''), 12, sample_created) \<and>
   GetRedirect (Some ''AHQ'') \<notin> set sample_requests \<and>
   PostDeletion ''AHQ'' ''X6dmtA'' \<notin> set sample_requests \<and>
   serve sample_url sample_domain sample_rnd sample_requests (12, sample_created)
     = Some (21, sample_served) \<and>
   strip sample_field = ''example.com'' \<and>
   format_url sample_url sample_domain (strip sample_field) = Some ''http://example.com'' \<and>
   get_statistics_page sample_created ''AHQ'' = StatisticsPage 1600000000 0 \<and>
   get_statistics_page sample_served ''AHQ'' = StatisticsPage 1600000000 0 \<and>
   fst (handle_redirect_url sample_served (Some ''AHQ'')) = Inr (Redirect ''http://example.com'') \<and>
   get_statistics_page (snd (handle_redirect_url sample_served (Some ''AHQ''))) ''AHQ''
     = StatisticsPage 1600000000 1"
proof -
  have created: "handle_new_url sample_url sample_domain sample_rnd 1600000000
      sample_field 0 sample_db
     = Some (Inr (NewUrlPage ''AHQ'' ''X6dmtA''), 12, sample_created)"
    by code_simp
  have no_resolve: "GetRedirect (Some ''AHQ'') \<notin> set sample_requests"
    by (simp add: sample_requests_def)
  have no_delete: "PostDeletion ''AHQ'' ''X6dmtA'' \<notin> set sample_requests"
    by (simp add: sample_requests_def)
  have served: "serve sample_url sample_domain sample_rnd sample_requests (12, sample_created)
     = Some (21, sample_served)"
    by code_simp
  have normal: "format_url sample_url sample_domain (strip sample_field)
     = Some ''http://example.com''"
    by code_simp
  have stripped: "strip sample_field = ''example.com''"
    by (simp add: strip_def isspace_def sample_field_def)
  from create_then_resolve[OF created no_resolve no_delete served] normal
  have "get_link_from_short sample_created ''AHQ'' =
          Some \<lparr>short_link = ''AHQ'', url = ''http://example.com'', deletion_id = ''X6dmtA'',
                clicks = 0, timestamp = 1600000000\<rparr> \<and>
        get_statistics_page sample_served ''AHQ'' = StatisticsPage 1600000000 0 \<and>
        fst (handle_redirect_url sample_served (Some ''AHQ''))
          = Inr (Redirect ''http://example.com'') \<and>
        get_link_from_short (snd (handle_redirect_url sample_served (Some ''AHQ''))) ''AHQ'' =
          Some \<lparr>short_link = ''AHQ'', url = ''http://example.com'', deletion_id = ''X6dmtA'',
                clicks = 1, timestamp = 1600000000\<rparr>"
    by auto
  then show ?thesis
    using created no_resolve no_delete served normal stripped
    by (simp add: get_statistics_page_def)
qed

end
